theory Spec2Isabelle
  imports Main
begin

section \<open>The event dispatcher of \<open>rpd.client.Client\<close>\<close>

text \<open>
  The development embeds \<open>Client.dispatch\<close>, \<open>Client._run_event\<close>,
  \<open>Client._schedule_event\<close> and \<open>Client.on_error\<close> of \<open>src/rpd/client.py\<close>.
  A client is a record of its mutable parts; every function takes the client and returns
  the updated one, together with the exception that left the function, if any.
\<close>

subsection \<open>Values, exceptions and outcomes\<close>

text \<open>
  Python values as far as the dispatcher looks at them: \<open>None\<close>, strings (the event name
  handed to the error sink), opaque payload objects, and tuples (the \<open>args\<close> tuple handed
  to \<open>set_result\<close>).
\<close>

datatype 'a pyval = PyNone | Str string | Obj 'a | Tuple "'a pyval list"

text \<open>
  Exceptions by the classes the code tells apart. \<open>asyncio.CancelledError\<close> derives
  from \<open>BaseException\<close> only (the code calls \<open>asyncio.create_task\<close> with \<open>name=\<close>,
  so it runs on Python 3.8 or later); \<open>BaseOnly\<close> stands for the other exceptions
  outside \<open>Exception\<close> (\<open>KeyboardInterrupt\<close>, \<open>SystemExit\<close>, \<open>GeneratorExit\<close>).
\<close>

datatype py_exception =
    CancelledError
  | InvalidStateError
  | TypeError
  | IndexError
  | OtherException string
  | BaseOnly string

fun isinstance_Exception :: "py_exception \<Rightarrow> bool" where
  "isinstance_Exception CancelledError = False"
| "isinstance_Exception (BaseOnly n) = False"
| "isinstance_Exception InvalidStateError = True"
| "isinstance_Exception TypeError = True"
| "isinstance_Exception IndexError = True"
| "isinstance_Exception (OtherException n) = True"

datatype 'r outcome = Returns 'r | Raises py_exception

type_synonym 'a args = "'a pyval list"
type_synonym 'a kwargs = "(string \<times> 'a pyval) list"

text \<open>
  A waiter's condition is called as \<open>condition(*args)\<close>; it returns a truth value or
  raises. A handler is called and awaited as \<open>await coro(*args, **kwargs)\<close>; the outcome
  is that of the whole \<open>await\<close>. Both are taken to leave the client's state alone.
\<close>

type_synonym 'a condition = "'a args \<Rightarrow> bool outcome"
type_synonym 'a coro = "'a args \<Rightarrow> 'a kwargs \<Rightarrow> unit outcome"

subsection \<open>Futures, tasks and the client\<close>

text \<open>
  An \<open>asyncio.Future\<close> is pending, cancelled, or finished with a result or an
  exception. Futures are shared objects: the client holds them by address, and the
  heap \<open>futures\<close> maps an address to the future's state.
\<close>

datatype 'a future_state =
    Pending
  | Cancelled
  | Finished_result "'a pyval"
  | Finished_exception py_exception

fun cancelled :: "'a future_state \<Rightarrow> bool" where
  "cancelled Cancelled = True"
| "cancelled s = False"

text \<open>What the dispatcher does to a waiter, in the order it does it.\<close>

datatype 'a effect =
    CondCalled nat "'a args"
  | SetResult nat "'a pyval"
  | SetException nat py_exception

record 'a task =
  task_name :: string
  task_coro :: "'a coro"
  task_event_name :: string
  task_args :: "'a args"
  task_kwargs :: "'a kwargs"

text \<open>
  \<open>listeners\<close> is \<open>self._listeners\<close>; \<open>attrs\<close> holds the handlers bound on the
  instance by \<open>Client.event\<close> (\<open>setattr(self, coro.__name__, coro)\<close>); \<open>tasks\<close> are
  the tasks handed to the event loop by \<open>asyncio.create_task\<close>, oldest first (the
  dispatcher is called while the loop runs, so \<open>create_task\<close> goes through);
  \<open>trace\<close> records the calls made on waiters.
\<close>

record 'a client =
  listeners :: "string \<rightharpoonup> (nat \<times> 'a condition) list"
  attrs :: "string \<rightharpoonup> 'a coro"
  futures :: "nat \<Rightarrow> 'a future_state"
  tasks :: "'a task list"
  trace :: "'a effect list"

text \<open>
  \<open>Future.set_result\<close> and \<open>Future.set_exception\<close>, by their documented contract:
  they raise \<open>InvalidStateError\<close> on a future that is already done, and leave it as it
  is. (CPython's \<open>set_exception\<close> also refuses a \<open>StopIteration\<close> instance; a condition
  that raises \<open>StopIteration\<close> is outside this model.) A call that goes through is
  recorded in the trace.
\<close>

definition set_result :: "nat \<Rightarrow> 'a pyval \<Rightarrow> 'a client \<Rightarrow> py_exception option \<times> 'a client" where
  "set_result future v c =
     (if futures c future = Pending
      then (None, c\<lparr>futures := (futures c)(future := Finished_result v),
                    trace := trace c @ [SetResult future v]\<rparr>)
      else (Some InvalidStateError, c))"

definition set_exception :: "nat \<Rightarrow> py_exception \<Rightarrow> 'a client \<Rightarrow> py_exception option \<times> 'a client" where
  "set_exception future E c =
     (if futures c future = Pending
      then (None, c\<lparr>futures := (futures c)(future := Finished_exception E),
                    trace := trace c @ [SetException future E]\<rparr>)
      else (Some InvalidStateError, c))"

subsection \<open>\<open>Client.on_error\<close> and attribute lookup\<close>

text \<open>
  \<open>def on_error(self, e_meth: str) -> None\<close> is a plain method of one parameter: the
  call binds when it gets exactly one argument, prints, and returns \<open>None\<close>; any other
  argument list is a \<open>TypeError\<close>.
\<close>

definition on_error :: "'a args \<Rightarrow> 'a kwargs \<Rightarrow> 'a pyval outcome" where
  "on_error args kwargs =
     (if (length args = 1 \<and> kwargs = []) \<or> (args = [] \<and> map fst kwargs = [''e_meth''])
      then Returns PyNone else Raises TypeError)"

text \<open>
  Awaiting what a plain function returned: \<open>None\<close> is not awaitable, so the \<open>await\<close>
  raises \<open>TypeError\<close>.
\<close>

definition await_plain :: "('a args \<Rightarrow> 'a kwargs \<Rightarrow> 'a pyval outcome) \<Rightarrow> 'a coro" where
  "await_plain f args kwargs =
     (case f args kwargs of Raises E \<Rightarrow> Raises E | Returns v \<Rightarrow> Raises TypeError)"

text \<open>
  \<open>getattr(self, name)\<close> for the names the dispatcher asks for: an attribute bound on
  the instance wins; otherwise the class provides \<open>on_error\<close> and nothing else whose
  name starts with \<open>on_\<close>. \<open>None\<close> is \<open>AttributeError\<close>.
\<close>

definition getattr :: "'a client \<Rightarrow> string \<Rightarrow> 'a coro option" where
  "getattr c name =
     (case attrs c name of
        Some coro \<Rightarrow> Some coro
      | None \<Rightarrow> if name = ''on_error'' then Some (await_plain on_error) else None)"

subsection \<open>\<open>Client._run_event\<close> and \<open>Client._schedule_event\<close>\<close>

text \<open>
  The result is the outcome of the wrapper and the calls it made to the error sink, each
  with its positional and keyword arguments. \<open>self.on_error\<close> is looked up like any
  attribute; the class defines it, so the lookup never fails and the \<open>None\<close> branch is
  there for the shape of \<open>getattr\<close> only.
\<close>

definition run_event ::
  "'a client \<Rightarrow> 'a coro \<Rightarrow> string \<Rightarrow> 'a args \<Rightarrow> 'a kwargs
     \<Rightarrow> unit outcome \<times> ('a args \<times> 'a kwargs) list" where
  "run_event c coro event_name args kwargs =
     (case coro args kwargs of
        Returns u \<Rightarrow> (Returns (), [])
      | Raises E \<Rightarrow>
          if E = CancelledError then (Returns (), [])
          else if isinstance_Exception E then
            (case getattr c ''on_error'' of
               None \<Rightarrow> (Raises (OtherException ''AttributeError''), [])
             | Some sink \<Rightarrow>
                 (case sink (Str event_name # args) kwargs of
                    Returns u \<Rightarrow> (Returns (), [(Str event_name # args, kwargs)])
                  | Raises E' \<Rightarrow>
                      if E' = CancelledError
                      then (Returns (), [(Str event_name # args, kwargs)])
                      else (Raises E', [(Str event_name # args, kwargs)])))
          else (Raises E, []))"

definition schedule_event ::
  "'a client \<Rightarrow> 'a coro \<Rightarrow> string \<Rightarrow> 'a args \<Rightarrow> 'a kwargs \<Rightarrow> 'a client" where
  "schedule_event c coro event_name args kwargs =
     c\<lparr>tasks := tasks c @
        [\<lparr>task_name = ''rpd: '' @ event_name, task_coro = coro,
          task_event_name = event_name, task_args = args, task_kwargs = kwargs\<rparr>]\<rparr>"


subsection \<open>\<open>Client.dispatch\<close>\<close>

text \<open>
  Modelled from the spec: \<open>rpd.helpers.MISSING\<close>, absent from the sources, is "a
  sentinel object" whose "truthiness in that boolean context is always true". The
  dispatcher only tests its truth value; the functions below take that truth value as
  their first parameter \<open>missing\<close>, and \<open>MISSING\<close> is the value the spec gives it.
\<close>

definition MISSING :: bool where
  "MISSING = True"

text \<open>The value of lines 135-140: \<open>if not args or MISSING: ... elif len(args) == 1: ...\<close>.\<close>

definition result_of_args :: "bool \<Rightarrow> 'a args \<Rightarrow> 'a pyval" where
  "result_of_args missing args =
     (if args = [] \<or> missing then PyNone
      else if length args = 1 then args ! 0
      else Tuple args)"

text \<open>
  The loop of lines 123-141 over \<open>enumerate(listeners)\<close>. An exception that leaves the
  loop leaves \<open>dispatch\<close>; the client is returned as it is at that point.
\<close>

fun waiters_loop ::
  "bool \<Rightarrow> 'a args \<Rightarrow> (nat \<times> nat \<times> 'a condition) list \<Rightarrow> nat list \<Rightarrow> 'a client
     \<Rightarrow> (py_exception + nat list) \<times> 'a client" where
  "waiters_loop missing args [] removed c = (Inr removed, c)"
| "waiters_loop missing args ((i, future, condition) # rest) removed c =
     (if cancelled (futures c future) then waiters_loop missing args rest (removed @ [i]) c
      else
        let c1 = c\<lparr>trace := trace c @ [CondCalled future args]\<rparr> in
        case condition args of
          Raises E \<Rightarrow>
            if isinstance_Exception E then
              (case set_exception future E c1 of
                 (Some err, c2) \<Rightarrow> (Inl err, c2)
               | (None, c2) \<Rightarrow> waiters_loop missing args rest (removed @ [i]) c2)
            else (Inl E, c1)
        | Returns result \<Rightarrow>
            if result then
              (case set_result future (result_of_args missing args) c1 of
                 (Some err, c2) \<Rightarrow> (Inl err, c2)
               | (None, c2) \<Rightarrow> waiters_loop missing args rest (removed @ [i]) c2)
            else waiters_loop missing args rest removed c1)"

text \<open>\<open>del listeners[idx]\<close>: \<open>IndexError\<close> out of range, the list untouched.\<close>

definition del_at :: "nat \<Rightarrow> 'b list \<Rightarrow> py_exception option \<times> 'b list" where
  "del_at idx xs =
     (if idx < length xs then (None, take idx xs @ drop (Suc idx) xs)
      else (Some IndexError, xs))"

text \<open>\<open>for idx in idxs: del listeners[idx]\<close>, on the one list object.\<close>

fun del_each :: "nat list \<Rightarrow> 'b list \<Rightarrow> py_exception option \<times> 'b list" where
  "del_each [] xs = (None, xs)"
| "del_each (idx # idxs) xs =
     (case del_at idx xs of
        (Some err, xs') \<Rightarrow> (Some err, xs')
      | (None, xs') \<Rightarrow> del_each idxs xs')"

definition dispatch ::
  "bool \<Rightarrow> 'a client \<Rightarrow> string \<Rightarrow> 'a args \<Rightarrow> 'a kwargs \<Rightarrow> py_exception option \<times> 'a client" where
  "dispatch missing c event args kwargs =
     (let event_name = ''on_'' @ event;
          after_waiters =
            (case listeners c event of
               None \<Rightarrow> (None, c)
             | Some ls \<Rightarrow>
                 if ls = [] then (None, c)
                 else
                   (case waiters_loop missing args (enumerate 0 ls) [] c of
                      (Inl err, c1) \<Rightarrow> (Some err, c1)
                    | (Inr removed, c1) \<Rightarrow>
                        if length removed = length ls
                        then (None, c1\<lparr>listeners := (listeners c1)(event := None)\<rparr>)
                        else
                          (case del_each (rev removed) ls of
                             (err, ls') \<Rightarrow>
                               (err, c1\<lparr>listeners := (listeners c1)(event \<mapsto> ls')\<rparr>))))
      in case after_waiters of
           (Some err, c2) \<Rightarrow> (Some err, c2)
         | (None, c2) \<Rightarrow>
             (case getattr c2 event_name of
                None \<Rightarrow> (None, c2)
              | Some coro \<Rightarrow> (None, schedule_event c2 coro event_name args kwargs)))"

text \<open>
  A caller that makes several calls in a row, going on after a call that raised.
\<close>

fun dispatch_all ::
  "bool \<Rightarrow> 'a client \<Rightarrow> (string \<times> 'a args \<times> 'a kwargs) list \<Rightarrow> 'a client" where
  "dispatch_all missing c [] = c"
| "dispatch_all missing c ((event, args, kwargs) # calls) =
     dispatch_all missing (snd (dispatch missing c event args kwargs)) calls"

text \<open>The client as \<open>Client.__init__\<close> leaves it, on an empty heap of futures.\<close>

definition init_client :: "'a client" where
  "init_client =
     \<lparr>listeners = Map.empty, attrs = Map.empty, futures = (\<lambda>f. Pending),
      tasks = [], trace = []\<rparr>"

section \<open>Vocabulary of the properties\<close>

subsection \<open>Indices marked for removal\<close>

text \<open>
  The indices, counted from \<open>n\<close>, of the flags that are set; and the elements of a list
  whose flag is not set.
\<close>

fun marked_indices :: "nat \<Rightarrow> bool list \<Rightarrow> nat list" where
  "marked_indices n [] = []"
| "marked_indices n (b # bs) = (if b then [n] else []) @ marked_indices (Suc n) bs"

definition unmarked :: "'b list \<Rightarrow> bool list \<Rightarrow> 'b list" where
  "unmarked xs flags = map fst (filter (\<lambda>(x, b). \<not> b) (zip xs flags))"

subsection \<open>Reading the trace\<close>

text \<open>
  A resolution of future \<open>f\<close> is a \<open>set_result\<close> or \<open>set_exception\<close> on it that went
  through; an effect touches \<open>f\<close> when it is its condition being called or a resolution.
\<close>

fun is_resolution :: "nat \<Rightarrow> 'a effect \<Rightarrow> bool" where
  "is_resolution f (CondCalled g a) = False"
| "is_resolution f (SetResult g v) = (g = f)"
| "is_resolution f (SetException g E) = (g = f)"

definition resolutions :: "nat \<Rightarrow> 'a effect list \<Rightarrow> nat" where
  "resolutions f tr = length (filter (is_resolution f) tr)"


text \<open>One when the future can still be resolved, zero when it is done.\<close>

definition open_slot :: "'a client \<Rightarrow> nat \<Rightarrow> nat" where
  "open_slot c f = (if futures c f = Pending then 1 else 0)"

subsection \<open>What one waiter contributes\<close>







subsection \<open>Parts of a dispatch\<close>

text \<open>The waiters pending for an event: none when the key is absent.\<close>

definition pending_of :: "'a client \<Rightarrow> string \<Rightarrow> (nat \<times> 'a condition) list" where
  "pending_of c event = (case listeners c event of None \<Rightarrow> [] | Some ws \<Rightarrow> ws)"

text \<open>Lines 148-153 on their own: the handler, when there is one, is scheduled.\<close>

definition with_handler :: "'a client \<Rightarrow> string \<Rightarrow> 'a args \<Rightarrow> 'a kwargs \<Rightarrow> 'a client" where
  "with_handler c event args kwargs =
     (case getattr c (''on_'' @ event) of
        None \<Rightarrow> c
      | Some coro \<Rightarrow> schedule_event c coro (''on_'' @ event) args kwargs)"

text \<open>The client as the loop over the waiters leaves it.\<close>

definition after_loop :: "bool \<Rightarrow> 'a client \<Rightarrow> string \<Rightarrow> 'a args \<Rightarrow> 'a client" where
  "after_loop missing c event args =
     (if pending_of c event = [] then c
      else snd (waiters_loop missing args (enumerate 0 (pending_of c event)) [] c))"

subsection \<open>A pending sequence to try the properties on\<close>

text \<open>
  Conditions that always return the same value or always raise, and a client with five
  waiters for \<open>message\<close> (the last one cancelled from outside) and a handler
  \<open>on_message\<close> that raises.
\<close>

definition always :: "bool \<Rightarrow> 'a condition" where
  "always b args = Returns b"

definition raising :: "py_exception \<Rightarrow> 'a condition" where
  "raising E args = Raises E"

definition scenario_waiters :: "(nat \<times> nat condition) list" where
  "scenario_waiters =
     [(0, always True), (1, always False), (2, raising (OtherException ''ValueError'')),
      (3, always True), (4, always True)]"

definition scenario :: "nat client" where
  "scenario =
     \<lparr>listeners = [''message'' \<mapsto> scenario_waiters],
      attrs = [''on_message'' \<mapsto> (\<lambda>args kwargs. Raises (OtherException ''KeyError''))],
      futures = (\<lambda>f. Pending)(4 := Cancelled),
      tasks = [], trace = []\<rparr>"

section \<open>Lemmas\<close>

subsection \<open>Deleting the marked indices, last first\<close>

text \<open>
  Deleting the marked indices from the highest down never runs out of range and leaves
  the unmarked elements in their order.
\<close>

lemma marked_indices_snoc:
  "marked_indices n (bs @ [b]) = marked_indices n bs @ (if b then [n + length bs] else [])"
  by (induction bs arbitrary: n) auto

lemma length_marked_indices: "length (marked_indices n flags) = length (filter id flags)"
  by (induction flags arbitrary: n) auto

lemma del_each_prefix:
  "del_each js ys = (None, ys') \<Longrightarrow> del_each js (ys @ zs) = (None, ys' @ zs)"
proof (induction js arbitrary: ys)
  case Nil
  then show ?case by simp
next
  case (Cons j js)
  from Cons.prems have j: "j < length ys"
    by (auto simp: del_at_def split: if_splits)
  with Cons.prems have "del_each js (take j ys @ drop (Suc j) ys) = (None, ys')"
    by (simp add: del_at_def)
  from Cons.IH [OF this] j show ?case
    by (simp add: del_at_def)
qed

lemma unmarked_snoc:
  "length bs = length xs \<Longrightarrow> unmarked (xs @ [x]) (bs @ [b]) = unmarked xs bs @ (if b then [] else [x])"
  by (simp add: unmarked_def)

lemma del_each_marked:
  "length flags = length xs \<Longrightarrow> del_each (rev (marked_indices 0 flags)) xs = (None, unmarked xs flags)"
proof (induction xs arbitrary: flags rule: rev_induct)
  case Nil
  then show ?case by (simp add: unmarked_def)
next
  case (snoc x xs)
  then obtain bs b where flags: "flags = bs @ [b]" and len: "length bs = length xs"
    by (cases flags rule: rev_cases) auto
  have IH: "del_each (rev (marked_indices 0 bs)) xs = (None, unmarked xs bs)"
    using snoc.IH len by simp
  show ?case
  proof (cases b)
    case True
    then show ?thesis
      using IH len by (simp add: flags marked_indices_snoc unmarked_snoc del_at_def)
  next
    case False
    then show ?thesis
      using del_each_prefix [OF IH, of "[x]"] len
      by (simp add: flags marked_indices_snoc unmarked_snoc)
  qed
qed

lemma length_unmarked:
  "length flags = length xs \<Longrightarrow> length (unmarked xs flags) + length (filter id flags) = length xs"
proof (induction xs flags rule: list_induct2')
  case (4 x xs b bs)
  then show ?case by (simp add: unmarked_def)
qed (simp_all add: unmarked_def)


subsection \<open>The loop on any pending sequence\<close>

text \<open>
  Facts that need no assumption on the client: the loop touches futures and trace only,
  every resolution it records closes a pending future, a finished or cancelled future is
  left alone, and the indices it returns are those of some flags over the sequence.
\<close>

lemma waiters_loop_frame:
  "listeners (snd (waiters_loop m args ts removed c)) = listeners c \<and>
   attrs (snd (waiters_loop m args ts removed c)) = attrs c \<and>
   tasks (snd (waiters_loop m args ts removed c)) = tasks c"
proof (induction ts arbitrary: removed c)
  case Nil
  then show ?case by simp
next
  case (Cons t ts)
  obtain i f p where t: "t = (i, f, p)" by (cases t)
  show ?case
    unfolding t
    by (simp add: Let_def set_result_def set_exception_def Cons.IH
             split: outcome.split)
qed

lemma waiters_loop_resolutions:
  "resolutions f (trace (snd (waiters_loop m args ts removed c)))
     + open_slot (snd (waiters_loop m args ts removed c)) f
   = resolutions f (trace c) + open_slot c f"
proof (induction ts arbitrary: removed c)
  case Nil
  then show ?case by simp
next
  case (Cons t ts)
  obtain i g p where t: "t = (i, g, p)" by (cases t)
  show ?case
    unfolding t
    apply (simp add: Let_def set_result_def set_exception_def Cons.IH
             split: outcome.split)
    apply (simp add: resolutions_def open_slot_def)
    done
qed

lemma waiters_loop_done:
  "futures c f \<noteq> Pending \<Longrightarrow> futures (snd (waiters_loop m args ts removed c)) f = futures c f"
proof (induction ts arbitrary: removed c)
  case Nil
  then show ?case by simp
next
  case (Cons t ts)
  obtain i g p where t: "t = (i, g, p)" by (cases t)
  show ?case
    unfolding t using Cons.prems
    by (auto simp add: Let_def set_result_def set_exception_def Cons.IH
             split: outcome.split)
qed


lemma waiters_loop_removed:
  "waiters_loop m args (enumerate n ws) removed c = (Inr r, c') \<Longrightarrow>
   \<exists>flags. length flags = length ws \<and> r = removed @ marked_indices n flags"
proof (induction ws arbitrary: n removed c)
  case Nil
  then show ?case by simp
next
  case (Cons w ws)
  obtain g p where w: "w = (g, p)" by (cases w)
  from Cons.prems have
    "(\<exists>c1. waiters_loop m args (enumerate (Suc n) ws) (removed @ [n]) c1 = (Inr r, c')) \<or>
     (\<exists>c1. waiters_loop m args (enumerate (Suc n) ws) removed c1 = (Inr r, c'))"
    unfolding w
    by (auto simp add: Let_def set_result_def set_exception_def
             split: outcome.splits if_splits)
  then show ?case
  proof
    assume "\<exists>c1. waiters_loop m args (enumerate (Suc n) ws) (removed @ [n]) c1 = (Inr r, c')"
    then obtain c1 where "waiters_loop m args (enumerate (Suc n) ws) (removed @ [n]) c1 = (Inr r, c')"
      by blast
    from Cons.IH [OF this] obtain flags where
      "length flags = length ws" "r = (removed @ [n]) @ marked_indices (Suc n) flags"
      by blast
    then have "length (True # flags) = length (w # ws) \<and> r = removed @ marked_indices n (True # flags)"
      by simp
    then show ?thesis by blast
  next
    assume "\<exists>c1. waiters_loop m args (enumerate (Suc n) ws) removed c1 = (Inr r, c')"
    then obtain c1 where "waiters_loop m args (enumerate (Suc n) ws) removed c1 = (Inr r, c')"
      by blast
    from Cons.IH [OF this] obtain flags where
      "length flags = length ws" "r = removed @ marked_indices (Suc n) flags"
      by blast
    then have "length (False # flags) = length (w # ws) \<and> r = removed @ marked_indices n (False # flags)"
      by simp
    then show ?thesis by blast
  qed
qed

subsection \<open>The loop on a well-formed pending sequence\<close>









subsection \<open>The whole call\<close>


lemma dispatch_idle:
  "pending_of c event = [] \<Longrightarrow>
   dispatch m c event args kwargs = (None, with_handler c event args kwargs)"
  by (auto simp: dispatch_def pending_of_def with_handler_def Let_def
           split: option.splits)


lemma dispatch_futures_trace:
  "futures (snd (dispatch m c event args kwargs)) = futures (after_loop m c event args) \<and>
   trace (snd (dispatch m c event args kwargs)) = trace (after_loop m c event args)"
  by (auto simp: dispatch_def after_loop_def pending_of_def Let_def schedule_event_def
           split: option.splits prod.splits sum.splits)

lemma dispatch_resolutions:
  "resolutions f (trace (snd (dispatch m c event args kwargs)))
     + open_slot (snd (dispatch m c event args kwargs)) f
   = resolutions f (trace c) + open_slot c f"
proof -
  have "open_slot (snd (dispatch m c event args kwargs)) f = open_slot (after_loop m c event args) f"
    by (simp add: open_slot_def dispatch_futures_trace)
  then show ?thesis
    by (simp add: dispatch_futures_trace after_loop_def waiters_loop_resolutions)
qed

lemma dispatch_done:
  "futures c f \<noteq> Pending \<Longrightarrow> futures (snd (dispatch m c event args kwargs)) f = futures c f"
  by (simp add: dispatch_futures_trace after_loop_def waiters_loop_done)


subsection \<open>Scheduling, and sequences of calls\<close>

lemma with_handler_frame:
  "listeners (with_handler c event args kwargs) = listeners c \<and>
   futures (with_handler c event args kwargs) = futures c \<and>
   trace (with_handler c event args kwargs) = trace c \<and>
   attrs (with_handler c event args kwargs) = attrs c"
  by (simp add: with_handler_def schedule_event_def split: option.split)


lemma dispatch_all_resolutions:
  "resolutions f (trace (dispatch_all m c calls)) + open_slot (dispatch_all m c calls) f
   = resolutions f (trace c) + open_slot c f"
proof (induction calls arbitrary: c)
  case Nil
  then show ?case by simp
next
  case (Cons call calls)
  obtain event args kwargs where call: "call = (event, args, kwargs)" by (cases call)
  show ?case
    by (simp add: call Cons.IH dispatch_resolutions)
qed

lemma dispatch_all_done:
  "futures c f \<noteq> Pending \<Longrightarrow> futures (dispatch_all m c calls) f = futures c f"
proof (induction calls arbitrary: c)
  case Nil
  then show ?case by simp
next
  case (Cons call calls)
  obtain event args kwargs where call: "call = (event, args, kwargs)" by (cases call)
  have "futures (snd (dispatch m c event args kwargs)) f \<noteq> Pending"
    using Cons.prems by (simp add: dispatch_done)
  from Cons.IH [OF this] Cons.prems show ?case
    by (simp add: call dispatch_done)
qed


lemma dispatch_listeners:
  "listeners (snd (dispatch m c event args kwargs)) = listeners c \<or>
   listeners (snd (dispatch m c event args kwargs)) = (listeners c)(event := None) \<or>
   (\<exists>ls'. ls' \<noteq> [] \<and> listeners (snd (dispatch m c event args kwargs)) = (listeners c)(event \<mapsto> ls'))"
proof (cases "pending_of c event = []")
  case True
  then show ?thesis
    by (simp add: dispatch_idle with_handler_frame)
next
  case False
  then obtain ls where ls: "listeners c event = Some ls" "ls \<noteq> []"
    by (auto simp: pending_of_def split: option.splits)
  obtain res c1 where loop: "waiters_loop m args (enumerate 0 ls) [] c = (res, c1)"
    by (cases "waiters_loop m args (enumerate 0 ls) [] c")
  have frame: "listeners c1 = listeners c"
    using waiters_loop_frame [of m args "enumerate 0 ls" "[]" c] by (simp add: loop)
  show ?thesis
  proof (cases res)
    case (Inl err)
    then show ?thesis
      using ls loop frame by (simp add: dispatch_def Let_def)
  next
    case (Inr removed)
    with loop waiters_loop_removed [of m args 0 ls "[]" c removed c1]
    obtain flags where flags: "length flags = length ls" "removed = marked_indices 0 flags"
      by auto
    show ?thesis
    proof (cases "length removed = length ls")
      case True
      then show ?thesis
        using ls loop frame Inr
        by (simp add: dispatch_def Let_def schedule_event_def split: option.split)
    next
      case False
      have del: "del_each (rev removed) ls = (None, unmarked ls flags)"
        using del_each_marked [OF flags(1)] flags(2) by simp
      have "unmarked ls flags \<noteq> []"
        using length_unmarked [OF flags(1)] False flags(2)
        by (auto simp: length_marked_indices)
      moreover have "listeners (snd (dispatch m c event args kwargs))
          = (listeners c)(event \<mapsto> unmarked ls flags)"
        using ls loop frame Inr False del
        by (simp add: dispatch_def Let_def schedule_event_def split: option.split)
      ultimately show ?thesis by blast
    qed
  qed
qed

subsection \<open>The call on a well-formed pending sequence, summed up\<close>





subsection \<open>Leaving one waiter out\<close>









subsection \<open>The error sink\<close>




subsection \<open>The resolved value\<close>


lemma result_of_args_by_arity:
  "result_of_args False [] = PyNone"
  "result_of_args False [v] = v"
  "2 \<le> length args \<Longrightarrow> result_of_args False args = Tuple args"
  by (auto simp: result_of_args_def)

subsection \<open>The class's own \<open>on_error\<close> as the sink\<close>

text \<open>
  \<open>Client.on_error\<close> is not a coroutine function: called as
  \<open>self.on_error(event_name, *args, **kwargs)\<close> it either fails to bind or returns
  \<open>None\<close>, which cannot be awaited. With no \<open>on_error\<close> bound on the instance, a
  handler that raises an instance of \<open>Exception\<close> makes \<open>_run_event\<close> raise
  \<open>TypeError\<close>.
\<close>

lemma run_event_default_sink:
  "attrs c ''on_error'' = None \<Longrightarrow> coro args kwargs = Raises E \<Longrightarrow> isinstance_Exception E \<Longrightarrow>
   fst (run_event c coro event_name args kwargs) = Raises TypeError"
  by (auto simp: run_event_def getattr_def await_plain_def on_error_def)

subsection \<open>The trial sequence is well-formed\<close>



section \<open>The claims\<close>


text \<open>
  Claim C2, as stated: whatever the error sink raises is swallowed by \<open>_run_event\<close>.
  It does not hold: a handler raises \<open>KeyError\<close>, the sink bound as \<open>on_error\<close> raises
  \<open>ValueError\<close>, and \<open>_run_event\<close> ends by raising that \<open>ValueError\<close>.
\<close>

theorem run_event_sink_failure_escapes:
  "fst (run_event
     (init_client\<lparr>attrs := [''on_error'' \<mapsto> (\<lambda>args kwargs. Raises (OtherException ''ValueError''))]\<rparr>)
     (\<lambda>args kwargs. Raises (OtherException ''KeyError''))
     ''on_message'' [Obj (1::nat)] [])
   = Raises (OtherException ''ValueError'')"
  by (simp add: run_event_def getattr_def init_client_def)

text \<open>
  Claim C2, amended: when the handler raises an instance of \<open>Exception\<close> and the
  error sink, called with the event name and the arguments, raises
  \<open>asyncio.CancelledError\<close>, the cancellation is swallowed: \<open>_run_event\<close> returns
  normally, having called the sink once.
\<close>

theorem run_event_sink_cancellation_swallowed:
  "coro args kwargs = Raises E \<Longrightarrow> isinstance_Exception E \<Longrightarrow>
   getattr c ''on_error'' = Some sink \<Longrightarrow>
   sink (Str event_name # args) kwargs = Raises CancelledError \<Longrightarrow>
   run_event c coro event_name args kwargs = (Returns (), [(Str event_name # args, kwargs)])"
  by (auto simp: run_event_def)

theorem run_event_sink_cancellation_swallowed_witness:
  "getattr (init_client\<lparr>attrs := [''on_error'' \<mapsto> (\<lambda>args kwargs. Raises CancelledError)]\<rparr> :: nat client)
       ''on_error''
     = Some (\<lambda>args kwargs. Raises CancelledError)
   \<and> run_event (init_client\<lparr>attrs := [''on_error'' \<mapsto> (\<lambda>args kwargs. Raises CancelledError)]\<rparr>)
       (\<lambda>args kwargs. Raises (OtherException ''KeyError'')) ''on_message'' [Obj (1::nat)] []
     = (Returns (), [([Str ''on_message'', Obj 1], [])])"
proof -
  let ?c = "init_client\<lparr>attrs := [''on_error'' \<mapsto> (\<lambda>args kwargs. Raises CancelledError)]\<rparr> :: nat client"
  have sink: "getattr ?c ''on_error'' = Some (\<lambda>args kwargs. Raises CancelledError)"
    by (simp add: getattr_def init_client_def)
  from run_event_sink_cancellation_swallowed
    [of "\<lambda>args kwargs. Raises (OtherException ''KeyError'')" "[Obj 1]" "[]" "OtherException ''KeyError''"
        ?c "\<lambda>args kwargs. Raises CancelledError" "''on_message''", OF refl _ sink refl]
    sink
  show ?thesis by simp
qed









text \<open>
  Claim C7: \<open>dispatch\<close> keeps the mapping free of keys bound to an empty sequence,
  on every path, also when it raises; so when no waiter is left for the event, the key
  is absent.
\<close>

theorem dispatch_no_empty_sequence:
  "\<forall>k. listeners c k \<noteq> Some [] \<Longrightarrow>
   (\<forall>k. listeners (snd (dispatch missing c event args kwargs)) k \<noteq> Some [])
   \<and> (pending_of (snd (dispatch missing c event args kwargs)) event = []
        \<longrightarrow> listeners (snd (dispatch missing c event args kwargs)) event = None)"
proof -
  assume inv: "\<forall>k. listeners c k \<noteq> Some []"
  have "\<forall>k. listeners (snd (dispatch missing c event args kwargs)) k \<noteq> Some []"
    using dispatch_listeners [of missing c event args kwargs] inv
    by (auto split: if_splits)
  then show ?thesis
    by (auto simp: pending_of_def split: option.splits)
qed

theorem dispatch_no_empty_sequence_witness:
  "(\<forall>k. listeners (init_client\<lparr>listeners :=
      [''ready'' \<mapsto> [(0, \<lambda>args. Returns True), (1, \<lambda>args. Returns True)]]\<rparr> :: nat client) k \<noteq> Some [])
   \<and> listeners (snd (dispatch MISSING (init_client\<lparr>listeners :=
      [''ready'' \<mapsto> [(0, \<lambda>args. Returns True), (1, \<lambda>args. Returns True)]]\<rparr> :: nat client) ''ready'' [] [])) ''ready'' = None"
proof -
  let ?c = "init_client\<lparr>listeners :=
      [''ready'' \<mapsto> [(0, \<lambda>args. Returns True), (1, \<lambda>args. Returns True)]]\<rparr> :: nat client"
  have inv: "\<forall>k. listeners ?c k \<noteq> Some []"
    by (simp add: init_client_def)
  have "pending_of (snd (dispatch MISSING ?c ''ready'' [] [])) ''ready'' = []"
    by (simp add: pending_of_def dispatch_def init_client_def MISSING_def enumerate_eq_zip
          set_result_def result_of_args_def getattr_def Let_def)
  with dispatch_no_empty_sequence [OF inv, of MISSING "''ready''" "[]" "[]"] inv
  show ?thesis by blast
qed

text \<open>
  Claim C8: over any sequence of \<open>dispatch\<close> calls, on any client, the resolutions of
  a future \<open>f\<close> grow by at most one: by one exactly when \<open>f\<close> goes from pending to
  done. A future that is done (resolved, failed or cancelled) keeps its state and is
  not resolved again.
\<close>

theorem waiter_resolved_at_most_once:
  "resolutions f (trace (dispatch_all missing c calls)) \<le> resolutions f (trace c) + 1
   \<and> resolutions f (trace (dispatch_all missing c calls)) + open_slot (dispatch_all missing c calls) f
       = resolutions f (trace c) + open_slot c f
   \<and> (futures c f \<noteq> Pending \<longrightarrow>
        futures (dispatch_all missing c calls) f = futures c f
        \<and> resolutions f (trace (dispatch_all missing c calls)) = resolutions f (trace c))"
proof -
  have eq: "resolutions f (trace (dispatch_all missing c calls)) + open_slot (dispatch_all missing c calls) f
     = resolutions f (trace c) + open_slot c f"
    by (rule dispatch_all_resolutions)
  have bound: "resolutions f (trace (dispatch_all missing c calls)) \<le> resolutions f (trace c) + 1"
  proof -
    have "open_slot c f \<le> 1" by (simp add: open_slot_def)
    with eq show ?thesis by linarith
  qed
  have "futures (dispatch_all missing c calls) f = futures c f
        \<and> resolutions f (trace (dispatch_all missing c calls)) = resolutions f (trace c)"
    if "futures c f \<noteq> Pending"
    using eq that dispatch_all_done [OF that, of missing calls]
    by (simp add: open_slot_def)
  with bound eq show ?thesis by blast
qed

theorem waiter_resolved_at_most_once_witness:
  "futures (scenario\<lparr>futures := (futures scenario)(0 := Finished_result (Obj 1))\<rparr>) 0 \<noteq> Pending
   \<and> futures (dispatch_all MISSING
        (scenario\<lparr>futures := (futures scenario)(0 := Finished_result (Obj 1))\<rparr>)
        [(''message'', [Obj 7], []), (''message'', [], [])]) 0
       = Finished_result (Obj 1)
   \<and> resolutions 0 (trace (dispatch_all MISSING
        (scenario\<lparr>futures := (futures scenario)(0 := Finished_result (Obj 1))\<rparr>)
        [(''message'', [Obj 7], []), (''message'', [], [])])) = 0"
proof -
  let ?c = "scenario\<lparr>futures := (futures scenario)(0 := Finished_result (Obj 1))\<rparr>"
  have "futures ?c 0 = Finished_result (Obj 1)" "trace ?c = []"
    by (simp_all add: scenario_def)
  with waiter_resolved_at_most_once [of 0 MISSING ?c
      "[(''message'', [Obj 7], []), (''message'', [], [])]"]
  show ?thesis by (simp add: resolutions_def)
qed

text \<open>
  Claim C9: with no waiter pending for the event (no key, or an empty sequence) and
  no attribute \<open>on_<event>\<close>, \<open>dispatch\<close> returns normally and leaves the client as it
  was: nothing is resolved, removed or scheduled.
\<close>

theorem dispatch_noop:
  "listeners c event = None \<or> listeners c event = Some [] \<Longrightarrow>
   getattr c (''on_'' @ event) = None \<Longrightarrow>
   dispatch missing c event args kwargs = (None, c)"
  by (auto simp: dispatch_def Let_def)

theorem dispatch_noop_witness:
  "(listeners (init_client :: nat client) ''ready'' = None
      \<or> listeners (init_client :: nat client) ''ready'' = Some [])
   \<and> getattr (init_client :: nat client) (''on_'' @ ''ready'') = None
   \<and> dispatch MISSING (init_client :: nat client) ''ready'' [Obj 1] [(''k'', PyNone)] = (None, init_client)"
  using dispatch_noop [of "init_client :: nat client" "''ready''" MISSING "[Obj 1]" "[(''k'', PyNone)]"]
  by (simp add: init_client_def getattr_def)


end
